theory Spec2Isabelle
  imports Complex_Main "HOL-Library.Char_ord" "HOL-Library.List_Lexorder"
begin

section \<open>JavaScript values used by the transaction controller\<close>

text \<open>
  Strings are lists of 8-bit code units (Latin-1); code units above 255 are outside the
  model. Numbers that reach the date arithmetic come from \<^verbatim>\<open>parseInt\<close> or from
  \<^verbatim>\<open>monthMap\<close>, so they are \<^verbatim>\<open>NaN\<close> or integers. A digit string too long for a
  double gives \<^verbatim>\<open>Infinity\<close> in JavaScript; the model keeps the exact integer, which is
  observed in the same way by the controller (truthy, not NaN, and far outside the range of
  \<^verbatim>\<open>Date\<close>).
\<close>

datatype jsnum = NaN | Num int

fun isNaN :: "jsnum \<Rightarrow> bool" where
  "isNaN NaN = True"
| "isNaN (Num n) = False"

text \<open>Truthiness of a number: \<^verbatim>\<open>!year\<close> holds for \<^verbatim>\<open>NaN\<close> and for \<^verbatim>\<open>0\<close>.\<close>

fun num_truthy :: "jsnum \<Rightarrow> bool" where
  "num_truthy NaN = False"
| "num_truthy (Num n) = (n \<noteq> 0)"

fun num_sub :: "jsnum \<Rightarrow> int \<Rightarrow> jsnum" where
  "num_sub NaN k = NaN"
| "num_sub (Num n) k = Num (n - k)"

text \<open>
  A value of \<^verbatim>\<open>req.query\<close>: absent, a string, an array (a repeated parameter) or a
  nested object.
\<close>

datatype qval = QUndefined | QStr string | QArr "qval list" | QObj

fun truthy :: "qval \<Rightarrow> bool" where
  "truthy QUndefined = False"
| "truthy (QStr s) = (s \<noteq> [])"
| "truthy (QArr xs) = True"
| "truthy QObj = True"

fun join_comma :: "string list \<Rightarrow> string" where
  "join_comma [] = []"
| "join_comma [s] = s"
| "join_comma (s # t # ss) = s @ '','' @ join_comma (t # ss)"

text \<open>\<^verbatim>\<open>String(v)\<close>; inside an array an undefined element is printed as the empty string.\<close>

fun toString :: "qval \<Rightarrow> string" where
  "toString QUndefined = ''undefined''"
| "toString (QStr s) = s"
| "toString (QArr xs) =
     join_comma (map (\<lambda>x. case x of QUndefined \<Rightarrow> [] | _ \<Rightarrow> toString x) xs)"
| "toString QObj = ''[object Object]''"

definition isWhiteSpace :: "char \<Rightarrow> bool" where
  "isWhiteSpace c \<longleftrightarrow> of_char c \<in> {9, 10, 11, 12, 13, 32, 160 :: nat}"

definition trim :: "string \<Rightarrow> string" where
  "trim s = rev (dropWhile isWhiteSpace (rev (dropWhile isWhiteSpace s)))"

definition digitValue :: "char \<Rightarrow> nat" where
  "digitValue c =
     (let n = of_char c :: nat in
      if 48 \<le> n \<and> n \<le> 57 then n - 48
      else if 97 \<le> n \<and> n \<le> 122 then n - 87
      else if 65 \<le> n \<and> n \<le> 90 then n - 55
      else 36)"

text \<open>
  \<^verbatim>\<open>parseInt(s)\<close> with no radix: leading white space, an optional sign, an optional
  \<^verbatim>\<open>0x\<close> prefix, then the longest prefix of digits; \<^verbatim>\<open>NaN\<close> when there is no digit.
\<close>

definition parseInt :: "string \<Rightarrow> jsnum" where
  "parseInt s =
     (let s1 = dropWhile isWhiteSpace s;
          sign = (if s1 \<noteq> [] \<and> hd s1 = CHR ''-'' then - 1 else 1 :: int);
          s2 = (if s1 \<noteq> [] \<and> (hd s1 = CHR ''-'' \<or> hd s1 = CHR ''+'') then tl s1 else s1);
          hex = (take 2 s2 = ''0x'' \<or> take 2 s2 = ''0X'');
          radix = (if hex then 16 else 10 :: nat);
          s3 = (if hex then drop 2 s2 else s2);
          z = takeWhile (\<lambda>c. digitValue c < radix) s3
      in if z = [] then NaN
         else Num (sign * int (foldl (\<lambda>a c. a * radix + digitValue c) 0 z)))"

text \<open>
  Reading \<^verbatim>\<open>obj[key]\<close> on an object literal: an own property, a property inherited from
  \<^verbatim>\<open>Object.prototype\<close> (a function or an object, never a number), or \<^verbatim>\<open>undefined\<close>.
\<close>

datatype 'a member = Own 'a | Inherited | Missing

definition objectPrototypeKeys :: "string list" where
  "objectPrototypeKeys =
     [''constructor'', ''hasOwnProperty'', ''isPrototypeOf'', ''propertyIsEnumerable'',
      ''toLocaleString'', ''toString'', ''valueOf'', ''__proto__'',
      ''__defineGetter__'', ''__defineSetter__'', ''__lookupGetter__'', ''__lookupSetter__'']"

definition js_get :: "(string \<times> 'a) list \<Rightarrow> string \<Rightarrow> 'a member" where
  "js_get obj k =
     (case map_of obj k of
        Some v \<Rightarrow> Own v
      | None \<Rightarrow> if k \<in> set objectPrototypeKeys then Inherited else Missing)"

section \<open>Dates\<close>

text \<open>
  A \<^verbatim>\<open>Date\<close> is its time value: milliseconds since the epoch, or \<open>None\<close> for an
  Invalid Date. \<^verbatim>\<open>Date.UTC(year, month, 1)\<close> follows ECMAScript: a year from 0 to 99 stands
  for 1900 + year, the month index is normalised into the year, and a time value beyond
  8.64e15 ms is clipped to \<^verbatim>\<open>NaN\<close>.
\<close>

type_synonym jsdate = "int option"

definition msPerDay :: int where
  "msPerDay = 86400000"

definition DayFromYear :: "int \<Rightarrow> int" where
  "DayFromYear y =
     365 * (y - 1970) + (y - 1969) div 4 - (y - 1901) div 100 + (y - 1601) div 400"

definition InLeapYear :: "int \<Rightarrow> bool" where
  "InLeapYear y \<longleftrightarrow> y mod 4 = 0 \<and> (y mod 100 \<noteq> 0 \<or> y mod 400 = 0)"

text \<open>Day within the year on which month index \<open>mn\<close> (0 to 11) starts.\<close>

definition monthStartDay :: "bool \<Rightarrow> int \<Rightarrow> int" where
  "monthStartDay leap mn =
     (let l = (if leap then 1 else 0) in
      if mn = 0 then 0 else if mn = 1 then 31 else if mn = 2 then 59 + l
      else if mn = 3 then 90 + l else if mn = 4 then 120 + l else if mn = 5 then 151 + l
      else if mn = 6 then 181 + l else if mn = 7 then 212 + l else if mn = 8 then 243 + l
      else if mn = 9 then 273 + l else if mn = 10 then 304 + l else 334 + l)"

definition MakeDay :: "int \<Rightarrow> int \<Rightarrow> int \<Rightarrow> int" where
  "MakeDay year month dt =
     (let ym = year + month div 12; mn = month mod 12
      in DayFromYear ym + monthStartDay (InLeapYear ym) mn + dt - 1)"

definition TimeClip :: "int \<Rightarrow> jsdate" where
  "TimeClip t = (if \<bar>t\<bar> > 8640000000000000 then None else Some t)"

definition Date_UTC :: "jsnum \<Rightarrow> jsnum \<Rightarrow> jsdate" where
  "Date_UTC year month =
     (case (year, month) of
        (Num y, Num m) \<Rightarrow>
          (let yr = (if 0 \<le> y \<and> y \<le> 99 then 1900 + y else y)
           in TimeClip (MakeDay yr m 1 * msPerDay))
      | _ \<Rightarrow> None)"

section \<open>Date Range Resolver\<close>

datatype error =
    InvalidMonth | InvalidYear | CastError | StoreError | ValidationError
  | InvalidDateFormat | FetchFailed | NotSerializable | HeadersSent

definition monthMap :: "(string \<times> int) list" where
  "monthMap =
     [(''Jan'', 1), (''Feb'', 2), (''Mar'', 3), (''Apr'', 4), (''May'', 5), (''Jun'', 6),
      (''Jul'', 7), (''Aug'', 8), (''Sep'', 9), (''Oct'', 10), (''Nov'', 11), (''Dec'', 12)]"

text \<open>
  What \<^verbatim>\<open>getMonthNumber\<close> returns: a number of \<^verbatim>\<open>monthMap\<close>, or the truthy value of
  an inherited property such as \<^verbatim>\<open>monthMap["constructor"]\<close>, which the guard
  \<^verbatim>\<open>!monthNumber\<close> lets through and which arithmetic turns into \<^verbatim>\<open>NaN\<close>.
\<close>

datatype monthNumber = MonthNo int | ProtoValue

fun toNumber :: "monthNumber \<Rightarrow> jsnum" where
  "toNumber (MonthNo n) = Num n"
| "toNumber ProtoValue = NaN"

fun getMonthNumber :: "qval \<Rightarrow> error + monthNumber" where
  "getMonthNumber (QStr month) =
     (if month = [] then Inl InvalidMonth
      else case js_get monthMap (trim month) of
             Own n \<Rightarrow> if n = 0 then Inl InvalidMonth else Inr (MonthNo n)
           | Inherited \<Rightarrow> Inr ProtoValue
           | Missing \<Rightarrow> Inl InvalidMonth)"
| "getMonthNumber _ = Inl InvalidMonth"

record dateRange =
  startDate :: jsdate
  endDate :: jsdate

definition getDateRange :: "monthNumber \<Rightarrow> jsnum \<Rightarrow> error + dateRange" where
  "getDateRange monthNumber year =
     (if isNaN year then Inl InvalidYear
      else Inr \<lparr>startDate = Date_UTC year (num_sub (toNumber monthNumber) 1),
                endDate = Date_UTC year (toNumber monthNumber)\<rparr>)"

text \<open>The resolver as the reducers call it: \<^verbatim>\<open>getDateRange(getMonthNumber(month), year)\<close>.\<close>

definition resolve :: "qval \<Rightarrow> jsnum \<Rightarrow> error + dateRange" where
  "resolve month year =
     (case getMonthNumber month of
        Inl e \<Rightarrow> Inl e
      | Inr monthNumber \<Rightarrow> getDateRange monthNumber year)"

subsection \<open>The calendar the specification speaks of\<close>

text \<open>
  The proleptic Gregorian calendar, stated from the lengths of the months: the instant
  00:00:00.000 UTC on day 1 of month \<open>m\<close> (1 to 12) of year \<open>y\<close>.
\<close>

definition monthLengths :: "int \<Rightarrow> int list" where
  "monthLengths y =
     [31, if InLeapYear y then 29 else 28, 31, 30, 31, 30, 31, 31, 30, 31, 30, 31]"

definition firstOfMonthUTC :: "int \<Rightarrow> nat \<Rightarrow> int" where
  "firstOfMonthUTC y m = msPerDay * (DayFromYear y + sum_list (take (m - 1) (monthLengths y)))"

definition nextMonth :: "int \<times> nat \<Rightarrow> int \<times> nat" where
  "nextMonth ym = (if snd ym = 12 then (fst ym + 1, 1) else (fst ym, snd ym + 1))"

definition monthNames :: "string list" where
  "monthNames =
     [''Jan'', ''Feb'', ''Mar'', ''Apr'', ''May'', ''Jun'',
      ''Jul'', ''Aug'', ''Sep'', ''Oct'', ''Nov'', ''Dec'']"

section \<open>Record Store\<close>

text \<open>
  A sale record as the schema declares it. \<open>dateOfSale\<close> is \<open>None\<close> for a value that
  is not a valid date (\<^verbatim>\<open>isValidDate\<close> is false for it). Prices are real numbers.
\<close>

record txn =
  title :: string
  description :: string
  price :: real
  category :: string
  dateOfSale :: jsdate
  sold :: bool
  image_field :: string

definition isValidDate :: "jsdate \<Rightarrow> bool" where
  "isValidDate date \<longleftrightarrow> date \<noteq> None"

text \<open>
  The collection, with what the controller cannot see: \<open>available k\<close> tells whether the
  \<open>k\<close>-th operation sent to the database succeeds, \<open>ops\<close> counts the operations sent.
\<close>

record db =
  docs :: "txn list"
  available :: "nat \<Rightarrow> bool"
  ops :: nat

definition sent_op :: "db \<Rightarrow> db" where
  "sent_op d = d\<lparr>ops := ops d + 1\<rparr>"

text \<open>The filter \<^verbatim>\<open>dateOfSale: { $gte: startDate, $lt: endDate }\<close>.\<close>

definition inRange :: "dateRange \<Rightarrow> txn \<Rightarrow> bool" where
  "inRange rng t =
     (case (dateOfSale t, startDate rng, endDate rng) of
        (Some d, Some s, Some e) \<Rightarrow> s \<le> d \<and> d < e
      | _ \<Rightarrow> False)"

text \<open>
  \<^verbatim>\<open>ProductTransaction.find({dateOfSale: {...}, sold: flag})\<close>. Mongoose casts the filter to
  the schema first and rejects an Invalid Date before anything is sent.
\<close>

definition Model_find :: "dateRange \<Rightarrow> bool \<Rightarrow> db \<Rightarrow> (error + txn list) \<times> db" where
  "Model_find rng flag d =
     (if \<not> isValidDate (startDate rng) \<or> \<not> isValidDate (endDate rng) then (Inl CastError, d)
      else if \<not> available d (ops d) then (Inl StoreError, sent_op d)
      else (Inr (filter (\<lambda>t. inRange rng t \<and> sold t = flag) (docs d)), sent_op d))"

text \<open>The stage \<^verbatim>\<open>{ $group: { _id: key, count: { $sum: 1 } } }\<close> on the keys of the matched records.\<close>

definition group_count :: "'k list \<Rightarrow> ('k \<times> int) list" where
  "group_count ks = map (\<lambda>k. (k, int (count_list ks k))) (remdups ks)"

text \<open>The \<^verbatim>\<open>$switch\<close> of the price histogram pipeline.\<close>

definition priceRange :: "real \<Rightarrow> string" where
  "priceRange p =
     (if p \<le> 50 then ''0-50''
      else if p \<le> 100 then ''51-100''
      else if p \<le> 200 then ''101-200''
      else if p \<le> 500 then ''201-500''
      else if p \<le> 1000 then ''501-1000''
      else if p > 1000 then ''1001+''
      else ''Unknown'')"

text \<open>
  The two pipelines passed to \<^verbatim>\<open>ProductTransaction.aggregate\<close>. A pipeline is not cast
  to the schema; a bound that is an Invalid Date matches no record.
\<close>

definition aggregate_priceRange :: "dateRange \<Rightarrow> db \<Rightarrow> (error + (string \<times> int) list) \<times> db" where
  "aggregate_priceRange rng d =
     (if \<not> available d (ops d) then (Inl StoreError, sent_op d)
      else (Inr (sort_key fst
                  (group_count (map (\<lambda>t. priceRange (price t)) (filter (inRange rng) (docs d))))),
            sent_op d))"

definition aggregate_category :: "dateRange \<Rightarrow> db \<Rightarrow> (error + (string \<times> int) list) \<times> db" where
  "aggregate_category rng d =
     (if \<not> available d (ops d) then (Inl StoreError, sent_op d)
      else (Inr (group_count (map category (filter (inRange rng) (docs d)))), sent_op d))"

definition Model_deleteMany :: "db \<Rightarrow> (error + unit) \<times> db" where
  "Model_deleteMany d =
     (if \<not> available d (ops d) then (Inl StoreError, sent_op d)
      else (Inr (), sent_op (d\<lparr>docs := []\<rparr>)))"

text \<open>
  \<^verbatim>\<open>ProductTransaction.insertMany\<close> of the model: every document is validated against the
  schema (the validator of \<open>dateOfSale\<close> is \<^verbatim>\<open>isValidDate\<close>) before anything is sent, and
  one invalid document rejects the whole batch. The other fields of a fetched record are
  taken to be present and of the declared type.
\<close>

definition Model_insertMany :: "txn list \<Rightarrow> db \<Rightarrow> (error + unit) \<times> db" where
  "Model_insertMany batch d =
     (if \<not> list_all (\<lambda>t. isValidDate (dateOfSale t)) batch then (Inl ValidationError, d)
      else if \<not> available d (ops d) then (Inl StoreError, sent_op d)
      else (Inr (), sent_op (d\<lparr>docs := docs d @ batch\<rparr>)))"

text \<open>The exported wrapper \<^verbatim>\<open>insertMany\<close> of the model file (the controller does not call it).\<close>

definition insertMany :: "txn list \<Rightarrow> db \<Rightarrow> (error + unit) \<times> db" where
  "insertMany batch d =
     (if list_ex (\<lambda>transaction. \<not> isValidDate (dateOfSale transaction)) batch
      then (Inl InvalidDateFormat, d)
      else Model_insertMany batch d)"

section \<open>Reducers\<close>

record 'a wrapped =
  data :: "'a"

definition priceRangeMapping :: "(string \<times> nat) list" where
  "priceRangeMapping =
     [(''0-50'', 0), (''51-100'', 1), (''101-200'', 2), (''201-500'', 3),
      (''501-1000'', 4), (''1001+'', 5)]"

text \<open>
  Lines 137 to 141: the callback of \<^verbatim>\<open>forEach\<close> and the loop over the groups, starting
  from six zeros. The indices of \<^verbatim>\<open>priceRangeMapping\<close> are below six, so the assignment
  never extends the array. An inherited property is not \<^verbatim>\<open>undefined\<close>, so the assignment
  runs for it, but with a key that is no array index: the elements stay as they are.
\<close>

definition step_fill :: "string \<times> int \<Rightarrow> int list \<Rightarrow> int list" where
  "step_fill item result =
     (case js_get priceRangeMapping (fst item) of
        Own index \<Rightarrow> result[index := snd item]
      | Inherited \<Rightarrow> result
      | Missing \<Rightarrow> result)"

definition fillResult :: "(string \<times> int) list \<Rightarrow> int list" where
  "fillResult productTransactions = fold step_fill productTransactions (replicate 6 0)"

definition getPriceRangeData_try ::
  "qval \<Rightarrow> jsnum \<Rightarrow> db \<Rightarrow> (error + int list wrapped) \<times> db" where
  "getPriceRangeData_try selectedMonth year d =
     (if \<not> truthy selectedMonth \<or> \<not> num_truthy year then (Inr \<lparr>data = replicate 6 0\<rparr>, d)
      else case resolve selectedMonth year of
             Inl e \<Rightarrow> (Inl e, d)
           | Inr rng \<Rightarrow>
               (case aggregate_priceRange rng d of
                  (Inl e, d') \<Rightarrow> (Inl e, d')
                | (Inr productTransactions, d') \<Rightarrow>
                    (Inr \<lparr>data = fillResult productTransactions\<rparr>, d')))"

definition getPriceRangeData ::
  "qval \<Rightarrow> jsnum \<Rightarrow> db \<Rightarrow> (error + int list wrapped) \<times> db" where
  "getPriceRangeData selectedMonth year d =
     (case getPriceRangeData_try selectedMonth year d of
        (Inl e, d') \<Rightarrow> (Inr \<lparr>data = replicate 6 0\<rparr>, d')
      | (Inr r, d') \<Rightarrow> (Inr r, d'))"

definition getCategoryData_try ::
  "qval \<Rightarrow> jsnum \<Rightarrow> db \<Rightarrow> (error + (string \<times> int) list wrapped) \<times> db" where
  "getCategoryData_try selectedMonth year d =
     (if \<not> truthy selectedMonth \<or> \<not> num_truthy year then (Inr \<lparr>data = []\<rparr>, d)
      else case resolve selectedMonth year of
             Inl e \<Rightarrow> (Inl e, d)
           | Inr rng \<Rightarrow>
               (case aggregate_category rng d of
                  (Inl e, d') \<Rightarrow> (Inl e, d')
                | (Inr categoryTransactions, d') \<Rightarrow>
                    (Inr \<lparr>data = categoryTransactions\<rparr>, d')))"

definition getCategoryData ::
  "qval \<Rightarrow> jsnum \<Rightarrow> db \<Rightarrow> (error + (string \<times> int) list wrapped) \<times> db" where
  "getCategoryData selectedMonth year d =
     (case getCategoryData_try selectedMonth year d of
        (Inl e, d') \<Rightarrow> (Inr \<lparr>data = []\<rparr>, d')
      | (Inr r, d') \<Rightarrow> (Inr r, d'))"

section \<open>Request handlers\<close>

text \<open>
  What a handler returns to its caller: \<^verbatim>\<open>undefined\<close>, or the response object when it
  ends with \<^verbatim>\<open>return res.status(...).json(...)\<close>.
\<close>

datatype retval = Undefined | ResObject

record salesSummary =
  totalSales :: real
  totalSoldItems :: nat
  totalNotSoldItems :: nat

record combined =
  statistics :: retval
  priceRangeData :: "int list wrapped"
  categoryData :: "(string \<times> int) list wrapped"

datatype body =
    ErrorBody string
  | MessageBody string
  | StatisticsBody salesSummary
  | CombinedBody combined

record req =
  query_month :: qval
  query_year :: qval

text \<open>
  The response object: the status code set so far, and the response that went to the
  client, if any. \<^verbatim>\<open>res.json\<close> serialises the body (the response object itself is
  circular and cannot be serialised) and sends it; once a response has been sent, setting
  its headers again throws.
\<close>

record res =
  statusCode :: nat
  sent :: "(nat \<times> body) option"

definition fresh_res :: res where
  "fresh_res = \<lparr>statusCode = 200, sent = None\<rparr>"

definition res_status :: "nat \<Rightarrow> res \<Rightarrow> res" where
  "res_status code r = r\<lparr>statusCode := code\<rparr>"

fun serializable :: "body \<Rightarrow> bool" where
  "serializable (CombinedBody c) = (statistics c \<noteq> ResObject)"
| "serializable _ = True"

definition res_json :: "body \<Rightarrow> res \<Rightarrow> error + res" where
  "res_json b r =
     (if \<not> serializable b then Inl NotSerializable
      else if sent r \<noteq> None then Inl HeadersSent
      else Inr (r\<lparr>sent := Some (statusCode r, b)\<rparr>))"

text \<open>A handler's catch block: \<^verbatim>\<open>res.status(500).json({ error: msg })\<close>.\<close>

definition catch_500 :: "string \<Rightarrow> res \<Rightarrow> db \<Rightarrow> (error + retval) \<times> res \<times> db" where
  "catch_500 msg r d =
     (case res_json (ErrorBody msg) (res_status 500 r) of
        Inl e \<Rightarrow> (Inl e, res_status 500 r, d)
      | Inr r' \<Rightarrow> (Inr Undefined, r', d))"

definition getStatistics_try :: "req \<Rightarrow> res \<Rightarrow> db \<Rightarrow> (error + retval) \<times> res \<times> db" where
  "getStatistics_try rq r d =
     (let month = query_month rq; year = query_year rq in
      if \<not> truthy month \<or> \<not> truthy year then
        (case res_json (ErrorBody ''Month and Year are required'') (res_status 400 r) of
           Inl e \<Rightarrow> (Inl e, res_status 400 r, d)
         | Inr r' \<Rightarrow> (Inr ResObject, r', d))
      else
        case resolve month (parseInt (toString year)) of
          Inl e \<Rightarrow> (Inl e, r, d)
        | Inr rng \<Rightarrow>
           (case Model_find rng True d of
              (Inl e, d1) \<Rightarrow> (Inl e, r, d1)
            | (Inr soldItems, d1) \<Rightarrow>
               (case Model_find rng False d1 of
                  (Inl e, d2) \<Rightarrow> (Inl e, r, d2)
                | (Inr notSoldItems, d2) \<Rightarrow>
                   (let totalSales = foldl (\<lambda>sum item. sum + price item) 0 soldItems in
                    case res_json (StatisticsBody \<lparr>totalSales = totalSales,
                                     totalSoldItems = length soldItems,
                                     totalNotSoldItems = length notSoldItems\<rparr>) r of
                      Inl e \<Rightarrow> (Inl e, r, d2)
                    | Inr r' \<Rightarrow> (Inr Undefined, r', d2)))))"

definition getStatistics :: "req \<Rightarrow> res \<Rightarrow> db \<Rightarrow> (error + retval) \<times> res \<times> db" where
  "getStatistics rq r d =
     (case getStatistics_try rq r d of
        (Inl e, r', d') \<Rightarrow> catch_500 ''Error fetching statistics'' r' d'
      | (Inr v, r', d') \<Rightarrow> (Inr v, r', d'))"

text \<open>
  \<^verbatim>\<open>Promise.all\<close> starts the three calls in this order. They only read the collection, so
  the results do not depend on how they interleave, and \<^verbatim>\<open>getStatistics\<close> has written to
  \<^verbatim>\<open>res\<close> before the three results are there.
\<close>

definition getCombinedData_try :: "req \<Rightarrow> res \<Rightarrow> db \<Rightarrow> (error + retval) \<times> res \<times> db" where
  "getCombinedData_try rq r d =
     (let selectedMonth = query_month rq; year = parseInt (toString (query_year rq)) in
      if \<not> truthy selectedMonth \<or> \<not> num_truthy year then
        (case res_json (ErrorBody ''Month and Year are required'') (res_status 400 r) of
           Inl e \<Rightarrow> (Inl e, res_status 400 r, d)
         | Inr r' \<Rightarrow> (Inr ResObject, r', d))
      else
        case getStatistics rq r d of (o1, r1, d1) \<Rightarrow>
        case getPriceRangeData selectedMonth year d1 of (o2, d2) \<Rightarrow>
        case getCategoryData selectedMonth year d2 of (o3, d3) \<Rightarrow>
        (case o1 of Inl e \<Rightarrow> (Inl e, r1, d3) | Inr statistics' \<Rightarrow>
         case o2 of Inl e \<Rightarrow> (Inl e, r1, d3) | Inr priceRangeData' \<Rightarrow>
         case o3 of Inl e \<Rightarrow> (Inl e, r1, d3) | Inr categoryData' \<Rightarrow>
           (case res_json (CombinedBody \<lparr>statistics = statistics',
                             priceRangeData = priceRangeData',
                             categoryData = categoryData'\<rparr>) r1 of
              Inl e \<Rightarrow> (Inl e, r1, d3)
            | Inr r2 \<Rightarrow> (Inr Undefined, r2, d3))))"

definition getCombinedData :: "req \<Rightarrow> res \<Rightarrow> db \<Rightarrow> (error + retval) \<times> res \<times> db" where
  "getCombinedData rq r d =
     (case getCombinedData_try rq r d of
        (Inl e, r', d') \<Rightarrow> catch_500 ''Error fetching combined data'' r' d'
      | (Inr v, r', d') \<Rightarrow> (Inr v, r', d'))"

subsection \<open>Bulk reseed\<close>

text \<open>What \<^verbatim>\<open>axios.get\<close> brings back: a failure, a payload that is no array, or an array.\<close>

datatype upstream = FetchError | NotAnArray | ArrayOf "txn list"

definition seedDatabase_try :: "upstream \<Rightarrow> res \<Rightarrow> db \<Rightarrow> (error + retval) \<times> res \<times> db" where
  "seedDatabase_try response r d =
     (case response of
        FetchError \<Rightarrow> (Inl FetchFailed, r, d)
      | NotAnArray \<Rightarrow>
          (case res_json (ErrorBody ''Invalid data format from API'') (res_status 400 r) of
             Inl e \<Rightarrow> (Inl e, res_status 400 r, d)
           | Inr r' \<Rightarrow> (Inr ResObject, r', d))
      | ArrayOf batch \<Rightarrow>
          (case Model_deleteMany d of
             (Inl e, d1) \<Rightarrow> (Inl e, r, d1)
           | (Inr u, d1) \<Rightarrow>
              (case Model_insertMany batch d1 of
                 (Inl e, d2) \<Rightarrow> (Inl e, r, d2)
               | (Inr u', d2) \<Rightarrow>
                  (case res_json (MessageBody ''Database seeded successfully'') (res_status 200 r) of
                     Inl e \<Rightarrow> (Inl e, res_status 200 r, d2)
                   | Inr r' \<Rightarrow> (Inr Undefined, r', d2)))))"

definition seedDatabase :: "upstream \<Rightarrow> res \<Rightarrow> db \<Rightarrow> (error + retval) \<times> res \<times> db" where
  "seedDatabase response r d =
     (case seedDatabase_try response r d of
        (Inl e, r', d') \<Rightarrow> catch_500 ''Error seeding database'' r' d'
      | (Inr v, r', d') \<Rightarrow> (Inr v, r', d'))"

section \<open>Notions of the specification and a sample collection\<close>

text \<open>How many records of the interval have a price with property \<open>P\<close>.\<close>

definition countPrices :: "dateRange \<Rightarrow> txn list \<Rightarrow> (real \<Rightarrow> bool) \<Rightarrow> int" where
  "countPrices rng ts P = int (length (filter (\<lambda>t. inRange rng t \<and> P (price t)) ts))"

text \<open>A record whose \<open>dateOfSale\<close> lies in the half-open interval from \<open>s\<close> to \<open>e\<close>.\<close>

definition inInterval :: "int \<Rightarrow> int \<Rightarrow> txn \<Rightarrow> bool" where
  "inInterval s e t = (case dateOfSale t of Some x \<Rightarrow> s \<le> x \<and> x < e | None \<Rightarrow> False)"

text \<open>A month parameter that names one of the twelve months.\<close>

fun validMonth :: "qval \<Rightarrow> bool" where
  "validMonth (QStr s) = (trim s \<in> set monthNames)"
| "validMonth _ = False"

text \<open>
  The scenario of the specification: three sales in March 2022 (on the 10th, the 17th and
  the 31st), and one more collection that also holds a sale of 1 April 2022.
\<close>

definition sale :: "real \<Rightarrow> bool \<Rightarrow> int \<Rightarrow> txn" where
  "sale p s t =
     \<lparr>title = ''item'', description = ''sample'', price = p, category = ''electronics'',
      dateOfSale = Some t, sold = s, image_field = ''http://example.org/i.png''\<rparr>"

definition march_docs :: "txn list" where
  "march_docs = [sale 45 True 1646870400000, sale 45 False 1647475200000,
                 sale 300 True 1648684800000]"

definition march_db :: db where
  "march_db = \<lparr>docs = march_docs, available = (\<lambda>k. True), ops = 0\<rparr>"

definition spring_db :: db where
  "spring_db = \<lparr>docs = sale 1200 True 1648771200000 # march_docs,
                 available = (\<lambda>k. True), ops = 0\<rparr>"

definition march_2022 :: dateRange where
  "march_2022 = \<lparr>startDate = Some 1646092800000, endDate = Some 1648771200000\<rparr>"

definition request :: "string \<Rightarrow> string \<Rightarrow> req" where
  "request m y = \<lparr>query_month = QStr m, query_year = QStr y\<rparr>"

section \<open>Calendar arithmetic\<close>

lemma div_step:
  fixes a n :: int
  assumes "0 < n"
  shows "(a + 1) div n = a div n + (if n dvd a + 1 then 1 else 0)"
proof (cases "n dvd a + 1")
  case True
  then obtain k where k: "a + 1 = n * k" by (auto simp: dvd_def)
  have "a = n * (k - 1) + (n - 1)" using k by (simp add: algebra_simps)
  then have "a div n = k - 1"
    using assms by (intro int_div_pos_eq[where r="n - 1"]) auto
  moreover have "(a + 1) div n = k" using k assms by simp
  ultimately show ?thesis using True by simp
next
  case False
  let ?q = "a div n" and ?r = "a mod n"
  have r: "0 \<le> ?r" "?r < n" using assms by simp_all
  have "?r + 1 \<noteq> n"
  proof
    assume e: "?r + 1 = n"
    have "a + 1 = n * ?q + (?r + 1)" by simp
    also have "\<dots> = n * (?q + 1)" using e by (simp add: algebra_simps)
    finally have "n dvd a + 1" by simp
    with False show False by simp
  qed
  with r have "?r + 1 < n" by simp
  moreover have "a + 1 = n * ?q + (?r + 1)" by simp
  ultimately have "(a + 1) div n = ?q"
    using r by (intro int_div_pos_eq[where r="?r + 1"]) auto
  with False show ?thesis by simp
qed

lemma div_step_shift:
  fixes y n k :: int
  assumes "0 < n" and "n dvd k - 1"
  shows "(y + 1 - k) div n = (y - k) div n + (if n dvd y then 1 else 0)"
proof -
  have c: "y - k + 1 = y - (k - 1)" by simp
  have d: "n dvd y - k + 1 \<longleftrightarrow> n dvd y"
    unfolding c using assms(2) by (rule dvd_diff_left_iff)
  have e: "y + 1 - k = y - k + 1" by simp
  show ?thesis unfolding e div_step[OF assms(1)] d by (rule refl)
qed

lemma leap_count:
  fixes P Q R :: bool
  assumes "R \<Longrightarrow> Q" "Q \<Longrightarrow> P"
  shows "(if P then 1 else 0) - (if Q then 1 else 0) + (if R then 1 else (0::int))
         = (if P \<and> (\<not> Q \<or> R) then 1 else 0)"
  using assms by (cases P; cases Q; cases R) simp_all

lemma DayFromYear_next:
  "DayFromYear (y + 1) = DayFromYear y + (if InLeapYear y then 366 else 365)"
proof -
  define a where "a = (y - 1969) div 4"
  define b where "b = (y - 1901) div 100"
  define c where "c = (y - 1601) div 400"
  define a' where "a' = (y + 1 - 1969) div 4"
  define b' where "b' = (y + 1 - 1901) div 100"
  define c' where "c' = (y + 1 - 1601) div 400"
  define i where "i = (if 4 dvd y \<and> (\<not> 100 dvd y \<or> 400 dvd y) then 1 else (0::int))"
  define i4 where "i4 = (if 4 dvd y then 1 else (0::int))"
  define i100 where "i100 = (if 100 dvd y then 1 else (0::int))"
  define i400 where "i400 = (if 400 dvd y then 1 else (0::int))"
  have a: "a' = a + i4"
    unfolding a_def a'_def i4_def by (rule div_step_shift) simp_all
  have b: "b' = b + i100"
    unfolding b_def b'_def i100_def by (rule div_step_shift) simp_all
  have c: "c' = c + i400"
    unfolding c_def c'_def i400_def by (rule div_step_shift) simp_all
  have d1: "(400::int) dvd y \<Longrightarrow> 100 dvd y" by (rule dvd_trans[of 100 400]) simp_all
  have d2: "(100::int) dvd y \<Longrightarrow> 4 dvd y" by (rule dvd_trans[of 4 100]) simp_all
  have i: "i4 - i100 + i400 = i"
    unfolding i_def i4_def i100_def i400_def by (rule leap_count) (fact d1 d2)+
  have leap: "InLeapYear y \<longleftrightarrow> 4 dvd y \<and> (\<not> 100 dvd y \<or> 400 dvd y)"
    unfolding InLeapYear_def dvd_eq_mod_eq_0 by (rule refl)
  have "DayFromYear (y + 1) = 365 * (y + 1 - 1970) + a' - b' + c'"
    unfolding DayFromYear_def a'_def b'_def c'_def by (rule refl)
  then have n: "DayFromYear (y + 1) = 365 * y - 718685 + a' - b' + c'" by simp
  have "DayFromYear y = 365 * (y - 1970) + a - b + c"
    unfolding DayFromYear_def a_def b_def c_def by (rule refl)
  then have "DayFromYear y = 365 * y - 719050 + a - b + c" by simp
  with n a b c i have "DayFromYear (y + 1) = DayFromYear y + (365 + i)" by linarith
  then show ?thesis unfolding leap i_def by (cases "4 dvd y \<and> (\<not> 100 dvd y \<or> 400 dvd y)") simp_all
qed

lemma DayFromYear_bounds:
  assumes "- 271820 \<le> y" "y \<le> 275759"
  shows "- 100000000 \<le> DayFromYear y \<and> DayFromYear y + 366 \<le> 100000000"
proof -
  define a where "a = (y - 1969) div 4"
  define b where "b = (y - 1901) div 100"
  define c where "c = (y - 1601) div 400"
  have q4: "4 * a \<le> y - 1969" "y - 1969 < 4 * a + 4"
    unfolding a_def using div_mult_mod_eq[of "y - 1969" 4] pos_mod_bound[of 4 "y - 1969"]
      pos_mod_sign[of 4 "y - 1969"] by simp_all
  have q100: "100 * b \<le> y - 1901" "y - 1901 < 100 * b + 100"
    unfolding b_def using div_mult_mod_eq[of "y - 1901" 100] pos_mod_bound[of 100 "y - 1901"]
      pos_mod_sign[of 100 "y - 1901"] by simp_all
  have q400: "400 * c \<le> y - 1601" "y - 1601 < 400 * c + 400"
    unfolding c_def using div_mult_mod_eq[of "y - 1601" 400] pos_mod_bound[of 400 "y - 1601"]
      pos_mod_sign[of 400 "y - 1601"] by simp_all
  have "DayFromYear y = 365 * (y - 1970) + a - b + c"
    unfolding DayFromYear_def a_def b_def c_def by (rule refl)
  then have "DayFromYear y = 365 * y - 719050 + a - b + c" by simp
  then show ?thesis using q4 q100 q400 assms by linarith
qed

lemma below_12_cases:
  "k < 12 \<Longrightarrow> k = 0 \<or> k = 1 \<or> k = 2 \<or> k = 3 \<or> k = 4 \<or> k = 5 \<or> k = 6 \<or> k = 7
     \<or> k = 8 \<or> k = 9 \<or> k = 10 \<or> k = (11::nat)"
  by arith

lemma MakeDay_month:
  assumes "k < 12"
  shows "MakeDay y (int k) 1 = DayFromYear y + sum_list (take k (monthLengths y))"
  using below_12_cases[OF assms]
  by (elim disjE) (simp_all add: MakeDay_def monthStartDay_def monthLengths_def)

lemma MakeDay_rollover: "MakeDay y 12 1 = DayFromYear (y + 1)"
  by (simp add: MakeDay_def monthStartDay_def)

lemma year_length: "sum_list (monthLengths y) = (if InLeapYear y then 366 else 365)"
  by (simp add: monthLengths_def)

lemma month_start_bounds:
  assumes "k < 12"
  shows "0 \<le> sum_list (take k (monthLengths y)) \<and> sum_list (take k (monthLengths y)) \<le> 335"
  using below_12_cases[OF assms]
  by (elim disjE) (simp_all add: monthLengths_def)

lemma TimeClip_days:
  assumes "- 100000000 \<le> d" "d \<le> 100000000"
  shows "TimeClip (d * msPerDay) = Some (msPerDay * d)"
  using assms by (simp add: TimeClip_def msPerDay_def abs_le_iff mult.commute)

lemma getMonthNumber_name:
  assumes "k < 12" and "trim s = monthNames ! k"
  shows "getMonthNumber (QStr s) = Inr (MonthNo (int k + 1))"
proof -
  have "s \<noteq> []" using assms below_12_cases[OF assms(1)]
    by (auto simp: trim_def monthNames_def)
  then show ?thesis
    using assms(2) below_12_cases[OF assms(1)]
    by (elim disjE) (simp_all add: js_get_def monthMap_def monthNames_def)
qed

section \<open>Date Range Resolver: one calendar month\<close>

lemma resolve_month:
  assumes m: "1 \<le> m" "m \<le> 12" and name: "trim monthName = monthNames ! (m - 1)"
    and yr: "\<not> (0 \<le> year \<and> year \<le> 99)"
  shows "resolve (QStr monthName) (Num year) =
           Inr \<lparr>startDate = TimeClip (MakeDay year (int (m - 1)) 1 * msPerDay),
                endDate = TimeClip (MakeDay year (int m) 1 * msPerDay)\<rparr>"
proof -
  have "getMonthNumber (QStr monthName) = Inr (MonthNo (int (m - 1) + 1))"
    using m name by (intro getMonthNumber_name) simp_all
  moreover have "int (m - 1) + 1 = int m" using m by simp
  ultimately have g: "getMonthNumber (QStr monthName) = Inr (MonthNo (int m))" by simp
  have i: "int m - 1 = int (m - 1)" using m by simp
  have y: "(if 0 \<le> year \<and> year \<le> 99 then 1900 + year else year) = year" using yr by simp
  show ?thesis unfolding resolve_def g
    by (simp add: getDateRange_def Date_UTC_def i y del: of_nat_diff)
qed

text \<open>
  Claim C3, as amended. For each of the twelve month abbreviations (surrounding white space
  trimmed) and every integer year from 100 to 275759 or from -271820 to -1, the Date Range
  Resolver returns the interval that starts at 00:00:00.000 UTC on day 1 of that month and
  ends at 00:00:00.000 UTC on day 1 of the following month (January of year + 1 after
  December); the end is the start plus the length of that calendar month.
\<close>

theorem date_range_one_calendar_month:
  assumes "1 \<le> m" and "m \<le> 12" and "trim monthName = monthNames ! (m - 1)"
    and "(100 \<le> year \<and> year \<le> 275759) \<or> (- 271820 \<le> year \<and> year < 0)"
  shows "resolve (QStr monthName) (Num year) =
           Inr \<lparr>startDate = Some (firstOfMonthUTC year m),
                endDate = Some (firstOfMonthUTC (fst (nextMonth (year, m)))
                                                (snd (nextMonth (year, m))))\<rparr>
         \<and> firstOfMonthUTC (fst (nextMonth (year, m))) (snd (nextMonth (year, m)))
             - firstOfMonthUTC year m
           = msPerDay * (monthLengths year ! (m - 1))"
proof -
  let ?ls = "monthLengths year"
  have rng: "- 271820 \<le> year" "year \<le> 275759" and two: "\<not> (0 \<le> year \<and> year \<le> 99)"
    using assms(4) by auto
  note b = DayFromYear_bounds[OF rng]
  have k: "m - 1 < 12" using assms(1,2) by simp
  note sb = month_start_bounds[OF k, of year]
  have start_day: "MakeDay year (int (m - 1)) 1 = DayFromYear year + sum_list (take (m - 1) ?ls)"
    by (rule MakeDay_month[OF k])
  have start: "TimeClip (MakeDay year (int (m - 1)) 1 * msPerDay) = Some (firstOfMonthUTC year m)"
    unfolding start_day firstOfMonthUTC_def using b sb by (intro TimeClip_days) linarith+
  have len: "length ?ls = 12" by (simp add: monthLengths_def)
  have nth_bounds: "0 \<le> ?ls ! (m - 1) \<and> ?ls ! (m - 1) \<le> 31"
    using below_12_cases[OF k] by (elim disjE) (simp_all add: monthLengths_def)
  have take_m: "sum_list (take m ?ls) = sum_list (take (m - 1) ?ls) + ?ls ! (m - 1)"
  proof -
    have "take m ?ls = take (Suc (m - 1)) ?ls" using assms(1) by simp
    also have "\<dots> = take (m - 1) ?ls @ [?ls ! (m - 1)]"
      using k len by (simp add: take_Suc_conv_app_nth)
    finally show ?thesis by simp
  qed
  show ?thesis
  proof (cases "m = 12")
    case True
    have yl: "sum_list (take 12 ?ls) = (if InLeapYear year then 366 else 365)"
      using year_length[of year] len by simp
    have next_day: "DayFromYear (year + 1) = DayFromYear year + sum_list (take 11 ?ls) + ?ls ! 11"
      using take_m yl True DayFromYear_next[of year] by simp
    have "TimeClip (MakeDay year (int m) 1 * msPerDay) = Some (msPerDay * DayFromYear (year + 1))"
      unfolding True using b sb nth_bounds next_day True
      by (simp only: of_nat_numeral MakeDay_rollover) (intro TimeClip_days; simp)
    then have "TimeClip (MakeDay year (int m) 1 * msPerDay) = Some (firstOfMonthUTC (year + 1) 1)"
      by (simp add: firstOfMonthUTC_def)
    moreover have "firstOfMonthUTC (year + 1) 1 - firstOfMonthUTC year m = msPerDay * (?ls ! (m - 1))"
      using next_day True by (simp add: firstOfMonthUTC_def algebra_simps)
    ultimately show ?thesis
      using resolve_month[OF assms(1,2,3) two] start True by (simp add: nextMonth_def)
  next
    case False
    then have m': "m < 12" using assms(2) by simp
    have "MakeDay year (int m) 1 = DayFromYear year + sum_list (take m ?ls)"
      by (rule MakeDay_month[OF m'])
    moreover have "sum_list (take m ?ls) \<le> 366" using take_m sb nth_bounds by linarith
    moreover have "0 \<le> sum_list (take m ?ls)" using take_m sb nth_bounds by linarith
    ultimately have "TimeClip (MakeDay year (int m) 1 * msPerDay) = Some (firstOfMonthUTC year (m + 1))"
      unfolding firstOfMonthUTC_def using b by (simp only: add_diff_cancel_right') (intro TimeClip_days; linarith)
    moreover have "firstOfMonthUTC year (m + 1) - firstOfMonthUTC year m = msPerDay * (?ls ! (m - 1))"
      using take_m by (simp add: firstOfMonthUTC_def algebra_simps)
    ultimately show ?thesis
      using resolve_month[OF assms(1,2,3) two] start False by (simp add: nextMonth_def)
  qed
qed

text \<open>The theorem at \<^verbatim>\<open>" Dec "\<close>, 2022: the interval ends on 1 January 2023.\<close>

theorem date_range_one_calendar_month_witness:
  "trim '' Dec '' = monthNames ! (12 - 1)
   \<and> resolve (QStr '' Dec '') (Num 2022)
       = Inr \<lparr>startDate = Some 1669852800000, endDate = Some 1672531200000\<rparr>
   \<and> firstOfMonthUTC 2022 12 = 1669852800000
   \<and> firstOfMonthUTC 2023 1 = 1672531200000
   \<and> (1672531200000::int) - 1669852800000 = msPerDay * 31"
proof -
  have n: "trim '' Dec '' = monthNames ! (12 - 1)"
    by (simp add: trim_def isWhiteSpace_def monthNames_def)
  have f: "firstOfMonthUTC 2022 12 = 1669852800000" "firstOfMonthUTC 2023 1 = 1672531200000"
    by (simp_all add: firstOfMonthUTC_def DayFromYear_def monthLengths_def InLeapYear_def msPerDay_def)
  have l: "monthLengths 2022 ! (12 - 1) = 31" by (simp add: monthLengths_def)
  show ?thesis
    using date_range_one_calendar_month[of 12 "'' Dec ''" 2022, OF _ _ n] n f l
    by (simp add: nextMonth_def)
qed

text \<open>
  Claim C3 as stated fails for the year 22: \<^verbatim>\<open>Date.UTC\<close> reads it as 1922, so the interval
  is March 1922 and not March of the year 22. For the year 300000 both ends are Invalid Dates.
\<close>

theorem date_range_two_digit_year_counterexample:
  "resolve (QStr ''Mar'') (Num 22)
     \<noteq> Inr \<lparr>startDate = Some (firstOfMonthUTC 22 3), endDate = Some (firstOfMonthUTC 22 4)\<rparr>
   \<and> resolve (QStr ''Mar'') (Num 22)
     = Inr \<lparr>startDate = Some (firstOfMonthUTC 1922 3), endDate = Some (firstOfMonthUTC 1922 4)\<rparr>
   \<and> resolve (QStr ''Mar'') (Num 300000) = Inr \<lparr>startDate = None, endDate = None\<rparr>"
  by code_simp

section \<open>Price Histogram: filling the six slots\<close>

lemma js_get_priceRangeMapping_Own:
  "js_get priceRangeMapping l = Own j \<longleftrightarrow>
     (l = ''0-50'' \<and> j = 0) \<or> (l = ''51-100'' \<and> j = 1) \<or> (l = ''101-200'' \<and> j = 2)
     \<or> (l = ''201-500'' \<and> j = 3) \<or> (l = ''501-1000'' \<and> j = 4) \<or> (l = ''1001+'' \<and> j = 5)"
  by (auto simp: js_get_def priceRangeMapping_def split: option.splits if_splits)

lemma length_step_fill: "length (step_fill item result) = length result"
  by (simp add: step_fill_def split: member.splits)

lemma length_fold_step_fill: "length (fold step_fill items acc) = length acc"
  by (induction items arbitrary: acc) (simp_all add: length_step_fill)

lemma fillResult_fold: "fillResult items = fold step_fill items (replicate 6 0)"
  by (rule fillResult_def)

lemma length_fillResult: "length (fillResult items) = 6"
  by (simp add: fillResult_fold length_fold_step_fill)

lemma fold_step_fill_nth:
  assumes "distinct (map fst items)" and "js_get priceRangeMapping l = Own i" and "i < length acc"
  shows "fold step_fill items acc ! i = (case map_of items l of None \<Rightarrow> acc ! i | Some c \<Rightarrow> c)"
  using assms
proof (induction items arbitrary: acc)
  case Nil
  then show ?case by simp
next
  case (Cons item items)
  show ?case
  proof (cases "fst item = l")
    case True
    then have "map_of items l = None"
      using Cons.prems(1) by (simp add: map_of_eq_None_iff)
    moreover have "step_fill item acc = acc[i := snd item]"
      using True Cons.prems(2) by (simp add: step_fill_def)
    moreover have "fold step_fill items (acc[i := snd item]) ! i
        = (case map_of items l of None \<Rightarrow> acc[i := snd item] ! i | Some c \<Rightarrow> c)"
      using Cons.prems by (intro Cons.IH) simp_all
    ultimately show ?thesis using True Cons.prems(3) by simp
  next
    case False
    have same: "step_fill item acc ! i = acc ! i"
    proof (cases "js_get priceRangeMapping (fst item)")
      case (Own j)
      then have "j \<noteq> i"
        using False Cons.prems(2) by (auto simp: js_get_priceRangeMapping_Own)
      then show ?thesis using Own by (simp add: step_fill_def)
    qed (simp_all add: step_fill_def)
    have "fold step_fill items (step_fill item acc) ! i
        = (case map_of items l of None \<Rightarrow> step_fill item acc ! i | Some c \<Rightarrow> c)"
      using Cons.prems by (intro Cons.IH) (simp_all add: length_step_fill)
    then show ?thesis using False by (simp add: same split: option.splits)
  qed
qed

lemma map_of_group_count:
  "map_of (group_count ks) l = (if l \<in> set ks then Some (int (count_list ks l)) else None)"
  by (simp add: group_count_def map_of_map_restrict restrict_map_def)

lemma distinct_group_count: "distinct (map fst (group_count ks))"
  by (simp add: group_count_def comp_def)

lemma map_of_sort_key:
  assumes "distinct (map fst xs)"
  shows "map_of (sort_key fst xs) = map_of xs"
proof -
  have "distinct (map fst (sort_key fst xs))"
    using assms by (simp add: distinct_map)
  then show ?thesis using map_of_inject_set[OF _ assms, of "sort_key fst xs"] by simp
qed

lemma fillResult_group_nth:
  assumes "js_get priceRangeMapping l = Own i"
  shows "fillResult (sort_key fst (group_count ks)) ! i = int (count_list ks l)"
proof -
  have i: "i < 6" using assms by (auto simp: js_get_priceRangeMapping_Own)
  have d: "distinct (map fst (sort_key fst (group_count ks)))"
    using distinct_group_count[of ks] by (simp add: distinct_map)
  have "fillResult (sort_key fst (group_count ks)) ! i
      = (case map_of (sort_key fst (group_count ks)) l of None \<Rightarrow> replicate 6 0 ! i | Some c \<Rightarrow> c)"
    unfolding fillResult_fold using d assms i by (intro fold_step_fill_nth) simp_all
  also have "\<dots> = int (count_list ks l)"
    using i by (simp add: map_of_sort_key[OF distinct_group_count] map_of_group_count)
  finally show ?thesis .
qed

lemma list6:
  assumes "length xs = 6"
  shows "xs = [xs ! 0, xs ! 1, xs ! 2, xs ! 3, xs ! 4, xs ! 5]"
  using assms by (auto simp: numeral_eq_Suc length_Suc_conv)

lemma count_list_map_filter:
  "int (count_list (map f xs) l) = int (length (filter (\<lambda>x. f x = l) xs))"
  by (induction xs) simp_all

lemma priceRange_label:
  "priceRange p = ''0-50'' \<longleftrightarrow> p \<le> 50"
  "priceRange p = ''51-100'' \<longleftrightarrow> 50 < p \<and> p \<le> 100"
  "priceRange p = ''101-200'' \<longleftrightarrow> 100 < p \<and> p \<le> 200"
  "priceRange p = ''201-500'' \<longleftrightarrow> 200 < p \<and> p \<le> 500"
  "priceRange p = ''501-1000'' \<longleftrightarrow> 500 < p \<and> p \<le> 1000"
  "priceRange p = ''1001+'' \<longleftrightarrow> 1000 < p"
  by (auto simp: priceRange_def)

lemma priceRange_index:
  "js_get priceRangeMapping (priceRange p) =
     Own (if p \<le> 50 then 0 else if p \<le> 100 then 1 else if p \<le> 200 then 2
          else if p \<le> 500 then 3 else if p \<le> 1000 then 4 else 5)"
  by (simp add: priceRange_def js_get_def priceRangeMapping_def)

lemma histogram_nth:
  assumes "js_get priceRangeMapping l = Own i"
  shows "fillResult (sort_key fst (group_count (map (\<lambda>t. priceRange (price t))
            (filter (inRange rng) ts)))) ! i
         = countPrices rng ts (\<lambda>p. priceRange p = l)"
  unfolding fillResult_group_nth[OF assms] count_list_map_filter countPrices_def
  by (simp add: conj_commute)

lemma histogram_data:
  "fillResult (sort_key fst (group_count (map (\<lambda>t. priceRange (price t))
       (filter (inRange rng) ts))))
   = [countPrices rng ts (\<lambda>p. p \<le> 50),
      countPrices rng ts (\<lambda>p. 50 < p \<and> p \<le> 100),
      countPrices rng ts (\<lambda>p. 100 < p \<and> p \<le> 200),
      countPrices rng ts (\<lambda>p. 200 < p \<and> p \<le> 500),
      countPrices rng ts (\<lambda>p. 500 < p \<and> p \<le> 1000),
      countPrices rng ts (\<lambda>p. 1000 < p)]"
  (is "?xs = _")
proof -
  have "?xs ! 0 = countPrices rng ts (\<lambda>p. priceRange p = ''0-50'')"
    by (rule histogram_nth) (simp add: js_get_priceRangeMapping_Own)
  moreover have "?xs ! 1 = countPrices rng ts (\<lambda>p. priceRange p = ''51-100'')"
    by (rule histogram_nth) (simp add: js_get_priceRangeMapping_Own)
  moreover have "?xs ! 2 = countPrices rng ts (\<lambda>p. priceRange p = ''101-200'')"
    by (rule histogram_nth) (simp add: js_get_priceRangeMapping_Own)
  moreover have "?xs ! 3 = countPrices rng ts (\<lambda>p. priceRange p = ''201-500'')"
    by (rule histogram_nth) (simp add: js_get_priceRangeMapping_Own)
  moreover have "?xs ! 4 = countPrices rng ts (\<lambda>p. priceRange p = ''501-1000'')"
    by (rule histogram_nth) (simp add: js_get_priceRangeMapping_Own)
  moreover have "?xs ! 5 = countPrices rng ts (\<lambda>p. priceRange p = ''1001+'')"
    by (rule histogram_nth) (simp add: js_get_priceRangeMapping_Own)
  ultimately show ?thesis
    using list6[OF length_fillResult, of "sort_key fst (group_count (map (\<lambda>t. priceRange (price t))
       (filter (inRange rng) ts)))"]
    by (simp only: priceRange_label)
qed

text \<open>
  Claim C2. Every price \<open>p \<ge> 0\<close> is assigned exactly one bucket index, with inclusive upper
  edges: up to 50 is bucket 0, above 50 up to 100 is bucket 1, above 100 up to 200 is bucket
  2, above 200 up to 500 is bucket 3, above 500 up to 1000 is bucket 4, above 1000 is bucket
  5. For a month and year that resolve to an interval, the histogram lists the six counts of
  the interval in this order, a bucket without a record counting 0.
\<close>

theorem price_bucket_assignment:
  assumes "0 \<le> p"
    and "truthy selectedMonth" and "num_truthy year"
    and "resolve selectedMonth year = Inr rng" and "available d (ops d)"
  shows "(\<exists>!i. js_get priceRangeMapping (priceRange p) = Own i)
       \<and> (p \<le> 50 \<longrightarrow> js_get priceRangeMapping (priceRange p) = Own 0)
       \<and> (50 < p \<and> p \<le> 100 \<longrightarrow> js_get priceRangeMapping (priceRange p) = Own 1)
       \<and> (100 < p \<and> p \<le> 200 \<longrightarrow> js_get priceRangeMapping (priceRange p) = Own 2)
       \<and> (200 < p \<and> p \<le> 500 \<longrightarrow> js_get priceRangeMapping (priceRange p) = Own 3)
       \<and> (500 < p \<and> p \<le> 1000 \<longrightarrow> js_get priceRangeMapping (priceRange p) = Own 4)
       \<and> (1000 < p \<longrightarrow> js_get priceRangeMapping (priceRange p) = Own 5)
       \<and> fst (getPriceRangeData selectedMonth year d)
           = Inr \<lparr>data = [countPrices rng (docs d) (\<lambda>p. p \<le> 50),
                           countPrices rng (docs d) (\<lambda>p. 50 < p \<and> p \<le> 100),
                           countPrices rng (docs d) (\<lambda>p. 100 < p \<and> p \<le> 200),
                           countPrices rng (docs d) (\<lambda>p. 200 < p \<and> p \<le> 500),
                           countPrices rng (docs d) (\<lambda>p. 500 < p \<and> p \<le> 1000),
                           countPrices rng (docs d) (\<lambda>p. 1000 < p)]\<rparr>"
proof -
  have "fst (getPriceRangeData selectedMonth year d)
          = Inr \<lparr>data = fillResult (sort_key fst (group_count (map (\<lambda>t. priceRange (price t))
                            (filter (inRange rng) (docs d)))))\<rparr>"
    using assms(2-5)
    by (simp add: getPriceRangeData_def getPriceRangeData_try_def aggregate_priceRange_def)
  then show ?thesis unfolding histogram_data priceRange_index by simp
qed

lemma resolve_march_2022: "resolve (QStr ''Mar'') (Num 2022) = Inr march_2022"
  by code_simp

lemma inRange_sale:
  "inRange march_2022 (sale p s t) \<longleftrightarrow> 1646092800000 \<le> t \<and> t < 1648771200000"
  by (simp add: inRange_def march_2022_def sale_def)

lemma price_sale: "price (sale p s t) = p" and sold_sale: "sold (sale p s t) = s"
  by (simp_all add: sale_def)

text \<open>
  The theorem at the prices 50 and 1000 and at March 2022 on the sample collection: the
  sale of 1 April is outside the interval, and four buckets are empty.
\<close>

theorem price_bucket_assignment_witness:
  "js_get priceRangeMapping (priceRange 50) = Own 0
   \<and> js_get priceRangeMapping (priceRange 1000) = Own 4
   \<and> fst (getPriceRangeData (QStr ''Mar'') (Num 2022) spring_db)
       = Inr \<lparr>data = [2, 0, 0, 1, 0, 0]\<rparr>"
proof -
  have a: "available spring_db (ops spring_db)" by (simp add: spring_db_def)
  have t: "truthy (QStr ''Mar'')" "num_truthy (Num 2022)" by simp_all
  note h = price_bucket_assignment[OF _ t resolve_march_2022 a]
  have "js_get priceRangeMapping (priceRange 50) = Own 0" using h[of 50] by simp
  moreover have "js_get priceRangeMapping (priceRange 1000) = Own 4" using h[of 1000] by simp
  moreover have "fst (getPriceRangeData (QStr ''Mar'') (Num 2022) spring_db)
       = Inr \<lparr>data = [2, 0, 0, 1, 0, 0]\<rparr>"
    using h[of 50]
    by (simp add: countPrices_def spring_db_def march_docs_def inRange_sale price_sale)
  ultimately show ?thesis by simp
qed

section \<open>Price Histogram: shape of the result\<close>

lemma zeros6: "replicate 6 (0::int) = [0, 0, 0, 0, 0, 0]"
  by (simp add: numeral_eq_Suc)

lemma getPriceRangeData_cases:
  "fst (getPriceRangeData selectedMonth year d) = Inr \<lparr>data = replicate 6 0\<rparr>
   \<or> (\<exists>rng. fst (getPriceRangeData selectedMonth year d)
          = Inr \<lparr>data = fillResult (sort_key fst (group_count (map (\<lambda>t. priceRange (price t))
                            (filter (inRange rng) (docs d)))))\<rparr>)"
  by (auto simp: getPriceRangeData_def getPriceRangeData_try_def aggregate_priceRange_def
      split: sum.splits)

lemma countPrices_nonneg: "0 \<le> countPrices rng ts P"
  by (simp add: countPrices_def)

lemma step_fill_unknown:
  assumes "\<And>i. js_get priceRangeMapping (fst item) \<noteq> Own i"
  shows "step_fill item result = result"
proof (cases "js_get priceRangeMapping (fst item)")
  case (Own i)
  with assms[of i] show ?thesis by simp
qed (simp_all add: step_fill_def)

text \<open>
  Claim C9. For every month, year and collection the Price Histogram returns a \<open>data\<close>
  array of exactly six counts, none negative. Whatever groups the aggregation returns, the
  array filled from them has six elements, and a group whose label is none of the six known
  labels, such as \<^verbatim>\<open>"Unknown"\<close>, leaves it as it is.
\<close>

theorem histogram_six_counts:
  "(\<exists>r. fst (getPriceRangeData selectedMonth year d) = Inr r
        \<and> length (data r) = 6 \<and> (\<forall>c \<in> set (data r). 0 \<le> c))
   \<and> length (fillResult (before @ (label, n) # after)) = 6
   \<and> ((\<forall>i. js_get priceRangeMapping label \<noteq> Own i)
        \<longrightarrow> fillResult (before @ (label, n) # after) = fillResult (before @ after))
   \<and> (\<forall>i. js_get priceRangeMapping ''Unknown'' \<noteq> Own i)"
proof -
  have "\<exists>r. fst (getPriceRangeData selectedMonth year d) = Inr r
        \<and> length (data r) = 6 \<and> (\<forall>c \<in> set (data r). 0 \<le> c)"
    using getPriceRangeData_cases[of selectedMonth year d]
  proof (elim disjE exE)
    assume "fst (getPriceRangeData selectedMonth year d) = Inr \<lparr>data = replicate 6 0\<rparr>"
    then show ?thesis by simp
  next
    fix rng
    assume "fst (getPriceRangeData selectedMonth year d)
          = Inr \<lparr>data = fillResult (sort_key fst (group_count (map (\<lambda>t. priceRange (price t))
                            (filter (inRange rng) (docs d)))))\<rparr>"
    then show ?thesis unfolding histogram_data by (simp add: countPrices_nonneg)
  qed
  moreover have "(\<forall>i. js_get priceRangeMapping label \<noteq> Own i)
        \<longrightarrow> fillResult (before @ (label, n) # after) = fillResult (before @ after)"
    by (simp add: fillResult_fold step_fill_unknown)
  moreover have "\<forall>i. js_get priceRangeMapping ''Unknown'' \<noteq> Own i"
    by (simp add: js_get_priceRangeMapping_Own)
  ultimately show ?thesis by (simp add: length_fillResult)
qed

text \<open>The theorem at March 2022 on the sample collection and at a group labelled \<^verbatim>\<open>"Unknown"\<close>.\<close>

theorem histogram_six_counts_witness:
  "fst (getPriceRangeData (QStr ''Mar'') (Num 2022) march_db) = Inr \<lparr>data = [2, 0, 0, 1, 0, 0]\<rparr>
   \<and> fillResult [(''0-50'', 2), (''Unknown'', 7), (''201-500'', 1)] = [2, 0, 0, 1, 0, 0]
   \<and> fillResult [(''0-50'', 2), (''Unknown'', 7), (''201-500'', 1)]
       = fillResult [(''0-50'', 2), (''201-500'', 1)]"
proof -
  note h = histogram_six_counts[of "QStr ''Mar''" "Num 2022" march_db
      "[(''0-50'', 2)]" "''Unknown''" 7 "[(''201-500'', 1)]"]
  have a: "fillResult [(''0-50'', 2), (''201-500'', 1)] = [2, 0, 0, 1, 0, 0]"
    by (simp add: fillResult_def step_fill_def js_get_def priceRangeMapping_def zeros6)
  have b: "fst (getPriceRangeData (QStr ''Mar'') (Num 2022) march_db) = Inr \<lparr>data = [2, 0, 0, 1, 0, 0]\<rparr>"
    by code_simp
  from h have "fillResult [(''0-50'', 2), (''Unknown'', 7), (''201-500'', 1)]
       = fillResult [(''0-50'', 2), (''201-500'', 1)]" by simp
  with a b show ?thesis by simp
qed

section \<open>Reducers: missing parameters\<close>

lemma getPriceRangeData_short_circuit:
  assumes "\<not> truthy selectedMonth \<or> \<not> num_truthy year"
  shows "getPriceRangeData selectedMonth year d = (Inr \<lparr>data = [0, 0, 0, 0, 0, 0]\<rparr>, d)"
  using assms by (auto simp: getPriceRangeData_def getPriceRangeData_try_def zeros6)

lemma getCategoryData_short_circuit:
  assumes "\<not> truthy selectedMonth \<or> \<not> num_truthy year"
  shows "getCategoryData selectedMonth year d = (Inr \<lparr>data = []\<rparr>, d)"
  using assms by (auto simp: getCategoryData_def getCategoryData_try_def)

lemma funpow_fixed: "f x = x \<Longrightarrow> (f ^^ n) x = x"
  by (induction n) simp_all

text \<open>
  Claim C7. When the month or the year is absent or falsy, the Price Histogram returns six
  zeros and the Category Breakdown returns the empty sequence; the store is left as it was,
  with no operation sent to it, whether it is available or not; and after any number of such
  calls one more call gives the same result.
\<close>

theorem missing_parameters_short_circuit:
  assumes "\<not> truthy selectedMonth \<or> \<not> num_truthy year"
  shows "getPriceRangeData selectedMonth year d = (Inr \<lparr>data = [0, 0, 0, 0, 0, 0]\<rparr>, d)
       \<and> getCategoryData selectedMonth year d = (Inr \<lparr>data = []\<rparr>, d)
       \<and> getPriceRangeData selectedMonth year
            (((\<lambda>s. snd (getPriceRangeData selectedMonth year s)) ^^ n) d)
           = getPriceRangeData selectedMonth year d
       \<and> getCategoryData selectedMonth year
            (((\<lambda>s. snd (getCategoryData selectedMonth year s)) ^^ n) d)
           = getCategoryData selectedMonth year d"
proof -
  note p = getPriceRangeData_short_circuit[OF assms] and c = getCategoryData_short_circuit[OF assms]
  have "((\<lambda>s. snd (getPriceRangeData selectedMonth year s)) ^^ n) d = d"
    by (rule funpow_fixed) (simp add: p)
  moreover have "((\<lambda>s. snd (getCategoryData selectedMonth year s)) ^^ n) d = d"
    by (rule funpow_fixed) (simp add: c)
  ultimately show ?thesis by (simp add: p c)
qed

text \<open>The theorem at an absent month, at the year \<^verbatim>\<open>NaN\<close>, and at a call repeated three times.\<close>

theorem missing_parameters_short_circuit_witness:
  "getPriceRangeData QUndefined (Num 2022) march_db = (Inr \<lparr>data = [0, 0, 0, 0, 0, 0]\<rparr>, march_db)
   \<and> getCategoryData (QStr ''Mar'') NaN march_db = (Inr \<lparr>data = []\<rparr>, march_db)
   \<and> getPriceRangeData (QStr '''') (Num 0)
        (snd (getPriceRangeData (QStr '''') (Num 0) (snd (getPriceRangeData (QStr '''') (Num 0) march_db))))
       = (Inr \<lparr>data = [0, 0, 0, 0, 0, 0]\<rparr>, march_db)"
  using missing_parameters_short_circuit[of QUndefined "Num 2022" march_db 0]
    missing_parameters_short_circuit[of "QStr ''Mar''" NaN march_db 0]
    missing_parameters_short_circuit[of "QStr ''''" "Num 0" march_db 2]
  by (simp add: numeral_2_eq_2)

section \<open>Reducers: failures stay inside\<close>

lemma getPriceRangeData_total:
  "\<exists>r. fst (getPriceRangeData selectedMonth year d) = Inr r"
  by (auto simp: getPriceRangeData_def split: prod.splits sum.splits)

lemma getCategoryData_total:
  "\<exists>r. fst (getCategoryData selectedMonth year d) = Inr r"
  by (auto simp: getCategoryData_def split: prod.splits sum.splits)

lemma getPriceRangeData_fallback:
  assumes "fst (getPriceRangeData_try selectedMonth year d) = Inl e"
  shows "fst (getPriceRangeData selectedMonth year d) = Inr \<lparr>data = [0, 0, 0, 0, 0, 0]\<rparr>"
  using assms by (auto simp: getPriceRangeData_def zeros6 split: prod.splits sum.splits)

lemma getCategoryData_fallback:
  assumes "fst (getCategoryData_try selectedMonth year d) = Inl e"
  shows "fst (getCategoryData selectedMonth year d) = Inr \<lparr>data = []\<rparr>"
  using assms by (auto simp: getCategoryData_def split: prod.splits sum.splits)

lemma reducers_fail_inside:
  assumes "truthy selectedMonth" and "num_truthy year"
    and "(\<exists>e. resolve selectedMonth year = Inl e) \<or> \<not> available d (ops d)"
  shows "(\<exists>e. fst (getPriceRangeData_try selectedMonth year d) = Inl e)
       \<and> (\<exists>e. fst (getCategoryData_try selectedMonth year d) = Inl e)"
  using assms
  by (auto simp: getPriceRangeData_try_def getCategoryData_try_def aggregate_priceRange_def
      aggregate_category_def split: sum.splits)

text \<open>
  Claim C8. For all inputs the Price Histogram and the Category Breakdown return a result and
  never an error. When the body of the reducer fails, the Price Histogram returns six zeros
  and the Category Breakdown the empty sequence; this is so in particular when the resolver
  rejects the month or the year and when the store fails.
\<close>

theorem reducers_never_propagate:
  "(\<exists>r. fst (getPriceRangeData selectedMonth year d) = Inr r)
   \<and> (\<exists>r. fst (getCategoryData selectedMonth year d) = Inr r)
   \<and> (fst (getPriceRangeData_try selectedMonth year d) = Inl e
        \<longrightarrow> fst (getPriceRangeData selectedMonth year d) = Inr \<lparr>data = [0, 0, 0, 0, 0, 0]\<rparr>)
   \<and> (fst (getCategoryData_try selectedMonth year d) = Inl e
        \<longrightarrow> fst (getCategoryData selectedMonth year d) = Inr \<lparr>data = []\<rparr>)
   \<and> (truthy selectedMonth \<and> num_truthy year
        \<and> ((\<exists>e. resolve selectedMonth year = Inl e) \<or> \<not> available d (ops d))
        \<longrightarrow> fst (getPriceRangeData selectedMonth year d) = Inr \<lparr>data = [0, 0, 0, 0, 0, 0]\<rparr>
          \<and> fst (getCategoryData selectedMonth year d) = Inr \<lparr>data = []\<rparr>)"
  using getPriceRangeData_total getCategoryData_total getPriceRangeData_fallback
    getCategoryData_fallback reducers_fail_inside[of selectedMonth year d]
  by metis

text \<open>The theorem at the month \<^verbatim>\<open>"Xyz"\<close> and at a store that is down.\<close>

theorem reducers_never_propagate_witness:
  "resolve (QStr ''Xyz'') (Num 2022) = Inl InvalidMonth
   \<and> fst (getPriceRangeData_try (QStr ''Xyz'') (Num 2022) march_db) = Inl InvalidMonth
   \<and> fst (getPriceRangeData (QStr ''Xyz'') (Num 2022) march_db) = Inr \<lparr>data = [0, 0, 0, 0, 0, 0]\<rparr>
   \<and> fst (getCategoryData (QStr ''Xyz'') (Num 2022) march_db) = Inr \<lparr>data = []\<rparr>
   \<and> fst (getCategoryData_try (QStr ''Mar'') (Num 2022) (march_db\<lparr>available := (\<lambda>k. False)\<rparr>))
       = Inl StoreError
   \<and> fst (getCategoryData (QStr ''Mar'') (Num 2022) (march_db\<lparr>available := (\<lambda>k. False)\<rparr>))
       = Inr \<lparr>data = []\<rparr>"
proof -
  have r: "resolve (QStr ''Xyz'') (Num 2022) = Inl InvalidMonth" by code_simp
  have t: "fst (getPriceRangeData_try (QStr ''Xyz'') (Num 2022) march_db) = Inl InvalidMonth"
    by (simp add: getPriceRangeData_try_def r)
  have s: "fst (getCategoryData_try (QStr ''Mar'') (Num 2022) (march_db\<lparr>available := (\<lambda>k. False)\<rparr>))
       = Inl StoreError"
    by (simp add: getCategoryData_try_def resolve_march_2022 aggregate_category_def)
  show ?thesis
    using reducers_never_propagate[of "QStr ''Xyz''" "Num 2022" march_db InvalidMonth]
      reducers_never_propagate[of "QStr ''Mar''" "Num 2022" "march_db\<lparr>available := (\<lambda>k. False)\<rparr>" StoreError]
      r t s
    by simp
qed

section \<open>Sales Summary\<close>

lemma foldl_price_sum:
  "foldl (\<lambda>sum item. sum + price item) a items = a + sum_list (map price items)"
  by (induction items arbitrary: a) simp_all

lemma getStatistics_ok:
  assumes "truthy (query_month rq)" and "truthy (query_year rq)"
    and "resolve (query_month rq) (parseInt (toString (query_year rq))) = Inr rng"
    and "startDate rng = Some s" and "endDate rng = Some e"
    and "available d (ops d)" and "available d (ops d + 1)"
  shows "getStatistics rq fresh_res d =
           (Inr Undefined,
            \<lparr>statusCode = 200,
             sent = Some (200, StatisticsBody
               \<lparr>totalSales = sum_list (map price (filter (\<lambda>t. inRange rng t \<and> sold t) (docs d))),
                totalSoldItems = length (filter (\<lambda>t. inRange rng t \<and> sold t) (docs d)),
                totalNotSoldItems = length (filter (\<lambda>t. inRange rng t \<and> \<not> sold t) (docs d))\<rparr>)\<rparr>,
            d\<lparr>ops := ops d + 2\<rparr>)"
  using assms
  by (simp add: getStatistics_def getStatistics_try_def Model_find_def isValidDate_def
      sent_op_def res_json_def fresh_res_def foldl_price_sum)

lemma inRange_inInterval:
  assumes "startDate rng = Some s" and "endDate rng = Some e"
  shows "inRange rng = inInterval s e"
  using assms by (auto simp: inRange_def inInterval_def fun_eq_iff split: option.splits)

lemma request_march_2022:
  "truthy (query_month (request ''Mar'' ''2022''))"
  "truthy (query_year (request ''Mar'' ''2022''))"
  "resolve (query_month (request ''Mar'' ''2022''))
     (parseInt (toString (query_year (request ''Mar'' ''2022'')))) = Inr march_2022"
  "startDate march_2022 = Some 1646092800000"
  "endDate march_2022 = Some 1648771200000"
  by (simp_all add: request_def march_2022_def) code_simp

lemma inInterval_sale: "inInterval s e (sale p f t) \<longleftrightarrow> s \<le> t \<and> t < e"
  by (simp add: inInterval_def sale_def)



text \<open>
  Claim C6. Under the same conditions, \<open>totalSoldItems + totalNotSoldItems\<close> is the number
  of records whose \<open>dateOfSale\<close> lies in the half-open interval from \<open>s\<close> to \<open>e\<close>: the two
  retrievals are disjoint and together hold exactly the records of the interval.
\<close>

theorem sold_unsold_partition:
  assumes "truthy (query_month rq)" and "truthy (query_year rq)"
    and "resolve (query_month rq) (parseInt (toString (query_year rq))) = Inr rng"
    and "startDate rng = Some s" and "endDate rng = Some e"
    and "available d (ops d)" and "available d (ops d + 1)"
  shows "\<exists>summary soldItems notSoldItems.
           sent (fst (snd (getStatistics rq fresh_res d))) = Some (200, StatisticsBody summary)
         \<and> totalSoldItems summary + totalNotSoldItems summary
             = length (filter (inInterval s e) (docs d))
         \<and> fst (Model_find rng True d) = Inr soldItems
         \<and> fst (Model_find rng False (snd (Model_find rng True d))) = Inr notSoldItems
         \<and> totalSoldItems summary = length soldItems
         \<and> totalNotSoldItems summary = length notSoldItems
         \<and> set soldItems \<inter> set notSoldItems = {}
         \<and> set soldItems \<union> set notSoldItems = set (filter (inInterval s e) (docs d))"
proof -
  let ?S = "filter (\<lambda>t. inInterval s e t \<and> sold t) (docs d)"
  let ?N = "filter (\<lambda>t. inInterval s e t \<and> \<not> sold t) (docs d)"
  note ok = getStatistics_ok[OF assms, unfolded inRange_inInterval[OF assms(4,5)]]
  have "length (filter sold (filter (inInterval s e) (docs d)))
          + length (filter (\<lambda>t. \<not> sold t) (filter (inInterval s e) (docs d)))
        = length (filter (inInterval s e) (docs d))"
    by (rule sum_length_filter_compl)
  then have len: "length ?S + length ?N = length (filter (inInterval s e) (docs d))"
    by (simp add: conj_commute)
  have f1: "fst (Model_find rng True d) = Inr ?S"
    using assms(4-7) by (simp add: Model_find_def isValidDate_def inRange_inInterval[OF assms(4,5)])
  have f2: "fst (Model_find rng False (snd (Model_find rng True d))) = Inr ?N"
    using assms(4-7)
    by (simp add: Model_find_def isValidDate_def sent_op_def inRange_inInterval[OF assms(4,5)])
  have "set ?S \<inter> set ?N = {}" by auto
  moreover have "set ?S \<union> set ?N = set (filter (inInterval s e) (docs d))" by auto
  ultimately show ?thesis using ok len f1 f2 by simp
qed

text \<open>The theorem at March 2022: three of the four sample records are in the interval.\<close>

theorem sold_unsold_partition_witness:
  "\<exists>summary. sent (fst (snd (getStatistics (request ''Mar'' ''2022'') fresh_res spring_db)))
       = Some (200, StatisticsBody summary)
     \<and> totalSoldItems summary + totalNotSoldItems summary = 3"
proof -
  have "length (filter (inInterval 1646092800000 1648771200000) (docs spring_db)) = 3"
    by (simp add: spring_db_def march_docs_def inInterval_sale)
  then show ?thesis
    using sold_unsold_partition[OF request_march_2022, of spring_db]
    by (auto simp: spring_db_def)
qed

section \<open>Status of the responses\<close>

lemma getStatistics_400:
  assumes "\<not> truthy (query_month rq) \<or> \<not> truthy (query_year rq)"
  shows "getStatistics rq fresh_res d =
           (Inr ResObject,
            \<lparr>statusCode = 400, sent = Some (400, ErrorBody ''Month and Year are required'')\<rparr>, d)"
  using assms
  by (auto simp: getStatistics_def getStatistics_try_def res_json_def res_status_def fresh_res_def)

lemma getStatistics_500:
  assumes "truthy (query_month rq)" and "truthy (query_year rq)"
    and "(\<exists>e. resolve (query_month rq) (parseInt (toString (query_year rq))) = Inl e)
         \<or> (\<exists>rng. resolve (query_month rq) (parseInt (toString (query_year rq))) = Inr rng
               \<and> startDate rng = None)"
  shows "getStatistics rq fresh_res d =
           (Inr Undefined,
            \<lparr>statusCode = 500, sent = Some (500, ErrorBody ''Error fetching statistics'')\<rparr>, d)"
  using assms
  by (auto simp: getStatistics_def getStatistics_try_def res_json_def res_status_def fresh_res_def
      catch_500_def Model_find_def isValidDate_def)

lemma monthMap_names: "map fst monthMap = monthNames"
  by (simp add: monthMap_def monthNames_def)

lemma js_get_monthMap_unknown:
  assumes "k \<notin> set monthNames"
  shows "js_get monthMap k = Inherited \<or> js_get monthMap k = Missing"
proof -
  have "map_of monthMap k = None"
    using assms monthMap_names by (metis map_of_eq_None_iff set_map)
  then show ?thesis by (simp add: js_get_def)
qed

lemma resolve_invalid_month:
  assumes "truthy month" and "\<not> validMonth month"
  shows "(\<exists>e. resolve month year = Inl e)
       \<or> (\<exists>rng. resolve month year = Inr rng \<and> startDate rng = None)"
proof (cases month)
  case (QStr s)
  then have "s \<noteq> []" and "trim s \<notin> set monthNames" using assms by simp_all
  then show ?thesis
    using js_get_monthMap_unknown[of "trim s"] QStr
    by (cases year) (auto simp: resolve_def getDateRange_def Date_UTC_def)
qed (simp_all add: resolve_def)

lemma resolve_NaN: "\<exists>e. resolve month NaN = Inl e"
  by (cases "getMonthNumber month") (simp_all add: resolve_def getDateRange_def)

lemma getStatistics_sends:
  "sent (fst (snd (getStatistics rq fresh_res d))) \<noteq> None"
  by (auto simp: getStatistics_def getStatistics_try_def res_json_def res_status_def fresh_res_def
      catch_500_def Let_def split: sum.splits prod.splits if_splits)

lemma catch_500_after_send:
  assumes "sent r \<noteq> None"
  shows "catch_500 msg r d = (Inl HeadersSent, res_status 500 r, d)"
  using assms by (auto simp: catch_500_def res_json_def res_status_def)

lemma res_json_after_send:
  assumes "sent r \<noteq> None"
  shows "res_json b r \<noteq> Inr r'"
  using assms by (simp add: res_json_def)

lemma getCombinedData_400:
  assumes "\<not> truthy (query_month rq) \<or> \<not> num_truthy (parseInt (toString (query_year rq)))"
  shows "getCombinedData rq fresh_res d =
           (Inr ResObject,
            \<lparr>statusCode = 400, sent = Some (400, ErrorBody ''Month and Year are required'')\<rparr>, d)"
  using assms
  by (auto simp: getCombinedData_def getCombinedData_try_def res_json_def res_status_def
      fresh_res_def)

lemma getCombinedData_pass:
  assumes "truthy (query_month rq)" and "num_truthy (parseInt (toString (query_year rq)))"
  shows "fst (getCombinedData rq fresh_res d) = Inl HeadersSent
       \<and> sent (fst (snd (getCombinedData rq fresh_res d)))
           = sent (fst (snd (getStatistics rq fresh_res d)))"
proof -
  obtain o1 r1 d1 where s: "getStatistics rq fresh_res d = (o1, r1, d1)"
    by (cases "getStatistics rq fresh_res d")
  have r1: "sent r1 \<noteq> None" using getStatistics_sends[of rq d] s by simp
  obtain o2 d2 where p: "getPriceRangeData (query_month rq) (parseInt (toString (query_year rq))) d1 = (o2, d2)"
    by (cases "getPriceRangeData (query_month rq) (parseInt (toString (query_year rq))) d1")
  obtain o3 d3 where c: "getCategoryData (query_month rq) (parseInt (toString (query_year rq))) d2 = (o3, d3)"
    by (cases "getCategoryData (query_month rq) (parseInt (toString (query_year rq))) d2")
  have "\<exists>e. getCombinedData_try rq fresh_res d = (Inl e, r1, d3)"
    using assms s p c
    by (auto simp: getCombinedData_try_def res_json_after_send[OF r1] split: sum.splits)
  then obtain e where "getCombinedData_try rq fresh_res d = (Inl e, r1, d3)" ..
  then have "getCombinedData rq fresh_res d = (Inl HeadersSent, res_status 500 r1, d3)"
    by (simp add: getCombinedData_def catch_500_after_send[OF r1])
  then show ?thesis using s by (simp add: res_status_def)
qed

text \<open>
  Claim C5, as amended. On the statistics endpoint a missing or empty month or year gives
  the response 400 "Month and Year are required"; a month that is present but names none of
  the twelve months, or a year without a leading integer, gives the response 500 "Error
  fetching statistics". On the combined-data endpoint a missing or empty month, or a year
  that parses to \<^verbatim>\<open>NaN\<close> or to 0, gives the response 400; a month that is present but names
  none of the twelve months gives the response 500 of the statistics handler.
\<close>

theorem malformed_parameters_status:
  "(\<not> truthy (query_month rq) \<or> \<not> truthy (query_year rq)
      \<longrightarrow> sent (fst (snd (getStatistics rq fresh_res d)))
          = Some (400, ErrorBody ''Month and Year are required''))
   \<and> (truthy (query_month rq) \<and> truthy (query_year rq)
        \<and> (\<not> validMonth (query_month rq) \<or> parseInt (toString (query_year rq)) = NaN)
      \<longrightarrow> sent (fst (snd (getStatistics rq fresh_res d)))
          = Some (500, ErrorBody ''Error fetching statistics''))
   \<and> (\<not> truthy (query_month rq) \<or> \<not> num_truthy (parseInt (toString (query_year rq)))
      \<longrightarrow> sent (fst (snd (getCombinedData rq fresh_res d)))
          = Some (400, ErrorBody ''Month and Year are required''))
   \<and> (truthy (query_month rq) \<and> num_truthy (parseInt (toString (query_year rq)))
        \<and> \<not> validMonth (query_month rq)
      \<longrightarrow> sent (fst (snd (getCombinedData rq fresh_res d)))
          = Some (500, ErrorBody ''Error fetching statistics''))"
proof -
  let ?y = "parseInt (toString (query_year rq))"
  have a: "sent (fst (snd (getStatistics rq fresh_res d)))
          = Some (400, ErrorBody ''Month and Year are required'')"
    if "\<not> truthy (query_month rq) \<or> \<not> truthy (query_year rq)"
    by (simp add: getStatistics_400[OF that])
  have b: "sent (fst (snd (getStatistics rq fresh_res d)))
          = Some (500, ErrorBody ''Error fetching statistics'')"
    if t: "truthy (query_month rq)" "truthy (query_year rq)"
      and m: "\<not> validMonth (query_month rq) \<or> ?y = NaN"
  proof -
    have "(\<exists>e. resolve (query_month rq) ?y = Inl e)
         \<or> (\<exists>rng. resolve (query_month rq) ?y = Inr rng \<and> startDate rng = None)"
      using m resolve_invalid_month[OF t(1), of ?y] resolve_NaN[of "query_month rq"] by auto
    then show ?thesis by (simp add: getStatistics_500[OF t])
  qed
  have c: "sent (fst (snd (getCombinedData rq fresh_res d)))
          = Some (400, ErrorBody ''Month and Year are required'')"
    if "\<not> truthy (query_month rq) \<or> \<not> num_truthy ?y"
    by (simp add: getCombinedData_400[OF that])
  have e: "sent (fst (snd (getCombinedData rq fresh_res d)))
          = Some (500, ErrorBody ''Error fetching statistics'')"
    if t: "truthy (query_month rq)" "num_truthy ?y" and m: "\<not> validMonth (query_month rq)"
  proof -
    have "parseInt ''undefined'' = NaN" and "parseInt [] = NaN" by code_simp+
    then have "truthy (query_year rq)"
      using t(2) by (cases "query_year rq") auto
    with b t(1) m getCombinedData_pass[OF t, of d] show ?thesis by simp
  qed
  from a b c e show ?thesis by blast
qed

text \<open>
  The theorem at an absent month, at the month \<^verbatim>\<open>"constructor"\<close>, at the year
  \<^verbatim>\<open>"abc"\<close> and at a repeated month parameter.
\<close>

theorem malformed_parameters_status_witness:
  "sent (fst (snd (getStatistics \<lparr>query_month = QUndefined, query_year = QStr ''2022''\<rparr>
          fresh_res march_db)))
     = Some (400, ErrorBody ''Month and Year are required'')
   \<and> sent (fst (snd (getStatistics (request ''constructor'' ''2022'') fresh_res march_db)))
     = Some (500, ErrorBody ''Error fetching statistics'')
   \<and> sent (fst (snd (getCombinedData (request ''Mar'' ''abc'') fresh_res march_db)))
     = Some (400, ErrorBody ''Month and Year are required'')
   \<and> sent (fst (snd (getCombinedData \<lparr>query_month = QArr [QStr ''Mar''], query_year = QStr ''2022''\<rparr>
          fresh_res march_db)))
     = Some (500, ErrorBody ''Error fetching statistics'')"
proof -
  have p: "parseInt ''2022'' = Num 2022" "parseInt ''abc'' = NaN" by code_simp+
  have v: "\<not> validMonth (QStr ''constructor'')"
    by (simp add: trim_def isWhiteSpace_def monthNames_def)
  show ?thesis
    using malformed_parameters_status[of "\<lparr>query_month = QUndefined, query_year = QStr ''2022''\<rparr>" march_db]
      malformed_parameters_status[of "request ''constructor'' ''2022''" march_db]
      malformed_parameters_status[of "request ''Mar'' ''abc''" march_db]
      malformed_parameters_status[of "\<lparr>query_month = QArr [QStr ''Mar''], query_year = QStr ''2022''\<rparr>" march_db]
      p v
    by (simp add: request_def)
qed

text \<open>
  Claim C5 as stated fails: the month \<^verbatim>\<open>"Xyz"\<close> and the year \<^verbatim>\<open>"abc"\<close> are answered
  with status 500 by the statistics endpoint, and the month \<^verbatim>\<open>"Xyz"\<close> with status 500 by
  the combined-data endpoint.
\<close>

theorem malformed_month_counterexample:
  "sent (fst (snd (getStatistics (request ''Xyz'' ''2022'') fresh_res march_db)))
     = Some (500, ErrorBody ''Error fetching statistics'')
   \<and> sent (fst (snd (getStatistics (request ''Mar'' ''abc'') fresh_res march_db)))
     = Some (500, ErrorBody ''Error fetching statistics'')
   \<and> sent (fst (snd (getCombinedData (request ''Xyz'' ''2022'') fresh_res march_db)))
     = Some (500, ErrorBody ''Error fetching statistics'')"
  by code_simp

section \<open>Combiner\<close>

text \<open>
  Claim C1 fails on the code. For month \<^verbatim>\<open>"Mar"\<close> and year \<^verbatim>\<open>"2022"\<close> on the scenario's
  collection, \<^verbatim>\<open>getStatistics\<close> itself sends \<open>{345, 2, 1}\<close> as the response and returns
  \<^verbatim>\<open>undefined\<close>; the combined payload is built with that value and its \<^verbatim>\<open>res.json\<close> throws
  because the response has gone out, as does the one in the catch block. The client receives
  the bare statistics.
\<close>

theorem combined_sends_bare_statistics:
  "fst (getCombinedData (request ''Mar'' ''2022'') fresh_res march_db) = Inl HeadersSent
   \<and> sent (fst (snd (getCombinedData (request ''Mar'' ''2022'') fresh_res march_db)))
       = Some (200, StatisticsBody
           \<lparr>totalSales = 345, totalSoldItems = 2, totalNotSoldItems = 1\<rparr>)
   \<and> fst (getStatistics (request ''Mar'' ''2022'') fresh_res march_db) = Inr Undefined"
  by code_simp

text \<open>No request is answered with a combined payload.\<close>

lemma combined_payload_never_sent:
  "sent (fst (snd (getCombinedData rq fresh_res d))) \<noteq> Some (code, CombinedBody c)"
proof (cases "truthy (query_month rq) \<and> num_truthy (parseInt (toString (query_year rq)))")
  case True
  then have "sent (fst (snd (getCombinedData rq fresh_res d)))
           = sent (fst (snd (getStatistics rq fresh_res d)))"
    using getCombinedData_pass[of rq d] by simp
  then show ?thesis
    by (auto simp: getStatistics_def getStatistics_try_def res_json_def res_status_def
        fresh_res_def catch_500_def Let_def split: sum.splits prod.splits if_splits)
next
  case False
  then show ?thesis using getCombinedData_400[of rq d] by auto
qed

section \<open>Bulk reseed\<close>

lemma Model_insertMany_invalid:
  assumes "t \<in> set batch" and "dateOfSale t = None"
  shows "Model_insertMany batch d = (Inl ValidationError, d)"
    and "insertMany batch d = (Inl InvalidDateFormat, d)"
  using assms
  by (auto simp: Model_insertMany_def insertMany_def isValidDate_def list_all_iff list_ex_iff)

lemma Model_insertMany_failed:
  assumes "fst (Model_insertMany batch d) = Inl e"
  shows "docs (snd (Model_insertMany batch d)) = docs d"
  using assms by (auto simp: Model_insertMany_def sent_op_def split: if_splits)

text \<open>
  Claim C10. When the fetched payload is an array, the delete phase has succeeded and the
  insertion then fails, the collection is left empty and the response is 500 "Error seeding
  database". A batch with a record whose \<open>dateOfSale\<close> is no valid date fails in this way,
  before anything is inserted.
\<close>

theorem reseed_not_atomic:
  assumes "fst (Model_deleteMany d) = Inr ()"
    and "fst (Model_insertMany batch (snd (Model_deleteMany d))) = Inl e"
  shows "docs (snd (snd (seedDatabase (ArrayOf batch) fresh_res d))) = []
       \<and> sent (fst (snd (seedDatabase (ArrayOf batch) fresh_res d)))
           = Some (500, ErrorBody ''Error seeding database'')
       \<and> (\<forall>t \<in> set batch. dateOfSale t = None
            \<longrightarrow> Model_insertMany batch (snd (Model_deleteMany d))
                = (Inl ValidationError, snd (Model_deleteMany d)))"
proof -
  obtain d1 where del: "Model_deleteMany d = (Inr (), d1)"
    using assms(1) by (cases "Model_deleteMany d") simp
  have e1: "docs d1 = []"
    using del by (auto simp: Model_deleteMany_def sent_op_def split: if_splits)
  obtain d2 where ins: "Model_insertMany batch d1 = (Inl e, d2)"
    using assms(2) del by (cases "Model_insertMany batch d1") simp
  have e2: "docs d2 = []"
    using Model_insertMany_failed[of batch d1 e] ins e1 by simp
  have "seedDatabase (ArrayOf batch) fresh_res d
      = (Inr Undefined,
         \<lparr>statusCode = 500, sent = Some (500, ErrorBody ''Error seeding database'')\<rparr>, d2)"
    using del ins
    by (simp add: seedDatabase_def seedDatabase_try_def catch_500_def res_json_def res_status_def
        fresh_res_def)
  then show ?thesis using e2 del Model_insertMany_invalid(1) by auto
qed

text \<open>The theorem at a batch of two records, the second with an unparseable date.\<close>

theorem reseed_not_atomic_witness:
  "fst (Model_deleteMany march_db) = Inr ()
   \<and> fst (Model_insertMany [sale 10 True 0, (sale 20 False 0)\<lparr>dateOfSale := None\<rparr>]
          (snd (Model_deleteMany march_db))) = Inl ValidationError
   \<and> docs march_db = march_docs
   \<and> docs (snd (snd (seedDatabase
        (ArrayOf [sale 10 True 0, (sale 20 False 0)\<lparr>dateOfSale := None\<rparr>]) fresh_res march_db))) = []
   \<and> sent (fst (snd (seedDatabase
        (ArrayOf [sale 10 True 0, (sale 20 False 0)\<lparr>dateOfSale := None\<rparr>]) fresh_res march_db)))
       = Some (500, ErrorBody ''Error seeding database'')"
proof -
  have a: "fst (Model_deleteMany march_db) = Inr ()"
    by (simp add: Model_deleteMany_def march_db_def)
  have b: "fst (Model_insertMany [sale 10 True 0, (sale 20 False 0)\<lparr>dateOfSale := None\<rparr>]
          (snd (Model_deleteMany march_db))) = Inl ValidationError"
    by (simp add: Model_insertMany_def isValidDate_def sale_def)
  show ?thesis using reseed_not_atomic[OF a b] a b by (simp add: march_db_def)
qed

end
